theory Spec2Isabelle
  imports Complex_Main "HOL-Library.Word"
begin

unbundle bit_operations_syntax

section \<open>JavaScript values\<close>

text \<open>
  The bridge (\<^verbatim>\<open>src/main.js\<close>) handles parsed JSON: telemetry frames of the printers and
  command objects of the control service. A value is one of the JSON shapes, or
  \<^verbatim>\<open>undefined\<close>, which is what reading a missing property gives. Numbers are the
  integer-valued ones; the one place where the code computes with a fraction (the fan
  scaling by 2.55) is modelled on its own below. An object is its list of properties.
\<close>

datatype jsval =
    JUndefined
  | JNull
  | JBool bool
  | JNum int
  | JStr string
  | JArr "jsval list"
  | JObj "(string \<times> jsval) list"

text \<open>What the code can raise: JavaScript's two implicit errors, and \<open>Unmodelled\<close> where
  the code coerces a non-number to a number (\<^verbatim>\<open>"50" * 2.55\<close>), which this model does
  not compute.\<close>

datatype exn = TypeError | ReferenceError | Unmodelled

text \<open>\<^verbatim>\<open>v.k\<close> on a value that is neither \<^verbatim>\<open>undefined\<close> nor \<^verbatim>\<open>null\<close>: the property of
  an object, \<^verbatim>\<open>undefined\<close> when it has none by that name. (The names read by the code
  are no properties of strings, numbers or arrays.)\<close>

fun prop_of :: "jsval \<Rightarrow> string \<Rightarrow> jsval" where
  "prop_of (JObj ps) k = (case map_of ps k of Some v \<Rightarrow> v | None \<Rightarrow> JUndefined)"
| "prop_of _ k = JUndefined"

text \<open>\<^verbatim>\<open>v?.k\<close>: the same, and \<^verbatim>\<open>undefined\<close> on \<^verbatim>\<open>undefined\<close> and \<^verbatim>\<open>null\<close>. On those two
  the plain \<^verbatim>\<open>v.k\<close> raises a TypeError.\<close>

definition opt_prop :: "jsval \<Rightarrow> string \<Rightarrow> jsval" where
  "opt_prop v k = prop_of v k"

fun strict_prop :: "jsval \<Rightarrow> string \<Rightarrow> exn + jsval" where
  "strict_prop JUndefined k = Inl TypeError"
| "strict_prop JNull k = Inl TypeError"
| "strict_prop v k = Inr (prop_of v k)"

text \<open>\<^verbatim>\<open>a ?? b\<close> takes \<open>b\<close> when \<open>a\<close> is \<^verbatim>\<open>undefined\<close> or \<^verbatim>\<open>null\<close>.\<close>

fun nullish :: "jsval \<Rightarrow> bool" where
  "nullish JUndefined = True"
| "nullish JNull = True"
| "nullish _ = False"

definition coalesce :: "jsval \<Rightarrow> jsval \<Rightarrow> jsval" where
  "coalesce a b = (if nullish a then b else a)"

text \<open>Truthiness, and \<^verbatim>\<open>a || b\<close>.\<close>

fun truthy :: "jsval \<Rightarrow> bool" where
  "truthy JUndefined = False"
| "truthy JNull = False"
| "truthy (JBool b) = b"
| "truthy (JNum n) = (n \<noteq> 0)"
| "truthy (JStr s) = (s \<noteq> [])"
| "truthy (JArr xs) = True"
| "truthy (JObj ps) = True"

definition js_or :: "jsval \<Rightarrow> jsval \<Rightarrow> jsval" where
  "js_or a b = (if truthy a then a else b)"

text \<open>\<^verbatim>\<open>xs[i]\<close> on an array: \<^verbatim>\<open>undefined\<close> out of range.\<close>

definition elem_at :: "jsval list \<Rightarrow> nat \<Rightarrow> jsval" where
  "elem_at xs i = (if i < length xs then xs ! i else JUndefined)"

section \<open>Bit-packed temperatures\<close>

text \<open>
  \<^verbatim>\<open>
  const decodeTemp = (encoded) => {
    if (encoded === undefined || encoded === null || encoded === 0) return { current: 0, target: 0 };
    return { current: encoded & 0xFFFF, target: (encoded >> 16) & 0xFFFF };
  };
  \<close>
  The bitwise operators work on the number reduced to a signed 32-bit integer
  (\<open>word_of_int\<close> reduces modulo \<open>2 ^ 32\<close>), and \<^verbatim>\<open>>>\<close> is the arithmetic shift.
\<close>

record temps =
  current :: int
  target :: int

definition ToInt32 :: "int \<Rightarrow> 32 word" where
  "ToInt32 n = word_of_int n"

fun decodeTemp :: "jsval \<Rightarrow> exn + temps" where
  "decodeTemp JUndefined = Inr \<lparr>current = 0, target = 0\<rparr>"
| "decodeTemp JNull = Inr \<lparr>current = 0, target = 0\<rparr>"
| "decodeTemp (JNum n) =
     (if n = 0 then Inr \<lparr>current = 0, target = 0\<rparr>
      else Inr \<lparr>current = sint (ToInt32 n AND 0xFFFF),
                target = sint (signed_drop_bit 16 (ToInt32 n) AND 0xFFFF)\<rparr>)"
| "decodeTemp _ = Inl Unmodelled"


lemma sint_small: "uint (w :: 32 word) < 2 ^ 31 \<Longrightarrow> sint w = uint w"
proof -
  assume a: "uint w < 2 ^ 31"
  have "- (2 ^ 31) \<le> uint w"
    by (rule order_trans [of _ 0]) simp_all
  with a have "signed_take_bit 31 (uint w) = uint w"
    by (simp add: signed_take_bit_int_eq_self_iff)
  then show ?thesis by (simp add: sint_uint)
qed

lemma and_ffff: "(w :: 32 word) AND 0xFFFF = take_bit 16 w"
proof -
  have "(0xFFFF :: 32 word) = mask 16" by (simp add: mask_eq_exp_minus_1)
  then show ?thesis by (simp add: take_bit_eq_mask)
qed

lemma low16_of_word:
  "sint ((w :: 32 word) AND 0xFFFF) = uint w mod 65536"
proof -
  have u: "uint (take_bit 16 w) = uint w mod 65536"
  proof -
    have "uint (take_bit 16 w) = take_bit 16 (uint w)"
      by (rule unsigned_take_bit_eq)
    also have "\<dots> = uint w mod 65536"
      by (simp add: take_bit_eq_mod)
    finally show ?thesis .
  qed
  have "uint w mod 65536 < 2 ^ 31"
    by (rule less_trans [of _ 65536]) simp_all
  with u have "sint (take_bit 16 w) = uint (take_bit 16 w)"
    by (intro sint_small) simp
  with u show ?thesis by (simp add: and_ffff)
qed

lemma high16_of_word:
  "sint (signed_drop_bit 16 (w :: 32 word) AND 0xFFFF) = (uint w div 65536) mod 65536"
proof -
  have e: "take_bit 16 (signed_drop_bit 16 w) = take_bit 16 (drop_bit 16 w)"
    by (rule bit_eqI) (auto simp add: bit_simps)
  have u: "uint (take_bit 16 (drop_bit 16 w)) = (uint w div 65536) mod 65536"
  proof -
    have "uint (take_bit 16 (drop_bit 16 w)) = take_bit 16 (uint (drop_bit 16 w))"
      by (rule unsigned_take_bit_eq)
    also have "uint (drop_bit 16 w) = drop_bit 16 (take_bit 32 (uint w))"
      using unsigned_drop_bit_eq [of 16 w, where ?'a = int] by simp
    also have "take_bit 32 (uint w) = uint w"
      by (simp add: take_bit_int_eq_self_iff uint_lt2p [of w, simplified])
    finally show ?thesis
      by (simp add: take_bit_eq_mod drop_bit_eq_div)
  qed
  have "(uint w div 65536) mod 65536 < 2 ^ 31"
    by (rule less_trans [of _ 65536]) simp_all
  with u have "sint (take_bit 16 (drop_bit 16 w)) = uint (take_bit 16 (drop_bit 16 w))"
    by (intro sint_small) simp
  with u e show ?thesis by (simp add: and_ffff)
qed

lemma uint_ToInt32: "uint (ToInt32 n) = n mod 2 ^ 32"
  by (simp add: ToInt32_def uint_word_of_int)

lemma decodeTemp_JNum:
  "decodeTemp (JNum n) =
     Inr \<lparr>current = (n mod 2 ^ 32) mod 2 ^ 16, target = (n mod 2 ^ 32) div 2 ^ 16\<rparr>"
proof (cases "n = 0")
  case True
  then show ?thesis by simp
next
  case False
  have "(n mod 2 ^ 32) div 2 ^ 16 < 2 ^ 16"
    by (simp add: div_less_iff_less_mult [symmetric])
  then have h: "(n mod 2 ^ 32) div 65536 mod 65536 = (n mod 2 ^ 32) div 2 ^ 16"
    by (simp add: pos_imp_zdiv_nonneg_iff)
  have l: "(n mod 2 ^ 32) mod 65536 = (n mod 2 ^ 32) mod 2 ^ 16"
    by simp
  from False have d: "decodeTemp (JNum n) =
      Inr \<lparr>current = sint (ToInt32 n AND 0xFFFF),
           target = sint (signed_drop_bit 16 (ToInt32 n) AND 0xFFFF)\<rparr>"
    by (simp only: decodeTemp.simps if_False)
  show ?thesis
    by (rule d [unfolded high16_of_word, unfolded low16_of_word uint_ToInt32 h l])
qed

text \<open>
  C6. The decoder takes the encoded number as a 32-bit value \<open>n mod 2 ^ 32\<close>; the current
  temperature is its low 16 bits and the target temperature its high 16 bits. The value
  \<open>0x00DC00AF\<close> decodes to current 175 and target 220, and 0 decodes to current 0 and
  target 0.
\<close>

theorem decodeTemp_low_high:
  "decodeTemp (JNum n) =
     Inr \<lparr>current = (n mod 2 ^ 32) mod 2 ^ 16, target = (n mod 2 ^ 32) div 2 ^ 16\<rparr>
   \<and> decodeTemp (JNum 0x00DC00AF) = Inr \<lparr>current = 175, target = 220\<rparr>
   \<and> decodeTemp (JNum 0) = Inr \<lparr>current = 0, target = 0\<rparr>"
  by (simp add: decodeTemp_JNum del: decodeTemp.simps)

theorem decodeTemp_low_high_witness:
  "decodeTemp (JNum 0x01180023) = Inr \<lparr>current = 35, target = 280\<rparr>"
  using decodeTemp_low_high [of "0x01180023"] by simp

section \<open>Camera frame extraction\<close>

text \<open>
  Both camera paths append the received bytes to a buffer and then cut JPEG frames out of
  it: \<^verbatim>\<open>processJpegBuffer\<close> for the direct TLS stream and \<^verbatim>\<open>processRtspFrameBuffer\<close>
  for the relay that reads the transcoder's MJPEG output. A buffer is a list of bytes.
  \<^verbatim>\<open>Buffer.indexOf\<close> returns the first position of a byte sequence, or -1, which is
  \<open>None\<close> here; its second argument is the position at which the search starts.
\<close>

type_synonym byte = "8 word"

definition JPEG_START :: "byte list" where
  "JPEG_START = [0xFF, 0xD8]"

definition JPEG_END :: "byte list" where
  "JPEG_END = [0xFF, 0xD9]"

fun indexOf :: "byte list \<Rightarrow> byte list \<Rightarrow> nat option" where
  "indexOf [] pat = (if pat = [] then Some 0 else None)"
| "indexOf (x # xs) pat =
     (if take (length pat) (x # xs) = pat then Some 0
      else map_option Suc (indexOf xs pat))"

definition indexOfFrom :: "byte list \<Rightarrow> byte list \<Rightarrow> nat \<Rightarrow> nat option" where
  "indexOfFrom buf pat byteOffset =
     map_option (\<lambda>i. i + byteOffset) (indexOf (drop byteOffset buf) pat)"

text \<open>
  The session objects. Both hold \<^verbatim>\<open>buffer\<close>, \<^verbatim>\<open>lastFrameTime\<close>, \<^verbatim>\<open>frameCount\<close> and
  \<^verbatim>\<open>lastSendTime\<close>; the direct session (an entry of \<^verbatim>\<open>jpegStreams\<close>) also holds the last
  frame and the set of subscribed HTTP responses (in insertion order, as \<^verbatim>\<open>forEach\<close>
  visits them), the relay session the \<^verbatim>\<open>active\<close> flag. \<^verbatim>\<open>frameCount\<close> and
  \<^verbatim>\<open>lastSendTime\<close> of a direct session start undefined and are read with \<^verbatim>\<open>|| 0\<close>, so
  they are 0 here. Sockets, reconnect counters and watchdog handles are not touched by
  the two functions and are left out.
\<close>

record frameState =
  buffer :: "byte list"
  lastFrameTime :: int
  frameCount :: nat
  lastSendTime :: int

record streamData = frameState +
  lastFrame :: "byte list option"
  clients :: "nat list"

record relayData = frameState +
  active :: bool

text \<open>What a call sends out, in order: \<^verbatim>\<open>apiSocket.emit('bridge:frame', {serial, frame,
  ts})\<close> to the control service, and \<^verbatim>\<open>sendJpegFrame(client, jpegData)\<close> to a local
  subscriber. Log lines are not modelled.\<close>

datatype emitted =
    BridgeFrame "byte list" int
  | ClientFrame nat "byte list"

lemma indexOf_Some_le:
  "indexOf xs pat = Some i \<Longrightarrow> i + length pat \<le> length xs"
proof (induction xs arbitrary: i)
  case Nil
  then show ?case by (simp split: if_splits)
next
  case (Cons x xs)
  show ?case
  proof (cases "take (length pat) (x # xs) = pat")
    case True
    with Cons.prems have "i = 0" by simp
    moreover from True have "length (take (length pat) (x # xs)) = length pat"
      by simp
    then have "min (length (x # xs)) (length pat) = length pat"
      by (simp only: length_take)
    then have "length pat \<le> length (x # xs)"
      by (simp only: min_def split: if_splits) 
    ultimately show ?thesis by simp
  next
    case False
    with Cons.prems obtain j where "indexOf xs pat = Some j" "i = Suc j"
      by auto
    with Cons.IH show ?thesis by simp
  qed
qed

lemma indexOfFrom_Some_le:
  "indexOfFrom xs pat k = Some i \<Longrightarrow> pat \<noteq> [] \<Longrightarrow> i + length pat \<le> length xs \<and> k \<le> i"
proof -
  assume a: "indexOfFrom xs pat k = Some i" and p: "pat \<noteq> []"
  from a obtain j where j: "indexOf (drop k xs) pat = Some j" and i: "i = j + k"
    unfolding indexOfFrom_def by (cases "indexOf (drop k xs) pat") auto
  from j have "j + length pat \<le> length (drop k xs)"
    by (rule indexOf_Some_le)
  then have "j + length pat \<le> length xs - k"
    by simp
  moreover from p have "1 \<le> length pat"
    by (cases pat) simp_all
  ultimately have "j + k + length pat \<le> length xs"
    by arith
  with i show ?thesis by simp
qed

lemma drop_frame_shorter:
  assumes "indexOfFrom xs JPEG_END 2 = Some endIdx"
  shows "length (drop (endIdx + 2) xs) < length xs"
proof -
  from assms have "endIdx + length JPEG_END \<le> length xs"
    using indexOfFrom_Some_le [of xs JPEG_END 2 endIdx] by (simp add: JPEG_END_def)
  then have "endIdx + 2 \<le> length xs" by (simp add: JPEG_END_def)
  then show ?thesis by simp
qed

text \<open>
  \<^verbatim>\<open>processJpegBuffer(serial, streamData)\<close>, lines 1344-1401. The \<^verbatim>\<open>while (true)\<close> loop is
  the recursion; every pass that does not return removes a frame of at least four bytes
  from the buffer, which is the termination argument. \<open>apiConnected\<close> is
  \<^verbatim>\<open>apiSocket?.connected\<close>, and \<open>now\<close> is the reading of \<^verbatim>\<open>Date.now()\<close>: the loop is
  synchronous, and one reading stands for all its calls.
\<close>

function processJpegBuffer :: "bool \<Rightarrow> int \<Rightarrow> streamData \<Rightarrow> streamData \<times> emitted list" where
  "processJpegBuffer apiConnected now sd =
     (case indexOf (buffer sd) JPEG_START of
        None \<Rightarrow> (sd\<lparr>buffer := []\<rparr>, [])
      | Some startIdx \<Rightarrow>
          let sd1 = (if startIdx > 0 then sd\<lparr>buffer := drop startIdx (buffer sd)\<rparr> else sd)
          in (case indexOfFrom (buffer sd1) JPEG_END 2 of
                None \<Rightarrow> (sd1, [])
              | Some endIdx \<Rightarrow>
                  let jpegData = take (endIdx + 2) (buffer sd1);
                      sd2 = sd1\<lparr>buffer := drop (endIdx + 2) (buffer sd1)\<rparr>
                  in if length jpegData > 100 then
                       let sd3 = sd2\<lparr>lastFrame := Some jpegData, lastFrameTime := now,
                                     frameCount := frameCount sd2 + 1\<rparr>;
                           send = (apiConnected \<and> now - lastSendTime sd3 \<ge> 200);
                           sd4 = (if send then sd3\<lparr>lastSendTime := now\<rparr> else sd3);
                           out = (if send then [BridgeFrame jpegData now] else [])
                                 @ map (\<lambda>c. ClientFrame c jpegData) (clients sd4);
                           r = processJpegBuffer apiConnected now sd4
                       in (fst r, out @ snd r)
                     else processJpegBuffer apiConnected now sd2))"
  by pat_completeness auto
termination
proof (relation "measure (\<lambda>(c, n, sd). length (buffer sd))", goal_cases)
  case 1
  then show ?case by simp
next
  case (2 apiConnected now sd startIdx sd1 endIdx jpegData sd2 sd3 send sd4)
  from 2(3) have "length (drop (endIdx + 2) (buffer sd1)) < length (buffer sd1)"
    by (rule drop_frame_shorter)
  moreover from 2(2) have "length (buffer sd1) \<le> length (buffer sd)"
    by (simp split: if_splits)
  ultimately show ?case using 2 by simp
next
  case (3 apiConnected now sd startIdx sd1 endIdx jpegData sd2)
  from 3(3) have "length (drop (endIdx + 2) (buffer sd1)) < length (buffer sd1)"
    by (rule drop_frame_shorter)
  moreover from 3(2) have "length (buffer sd1) \<le> length (buffer sd)"
    by (simp split: if_splits)
  ultimately show ?case using 3 by simp
qed


text \<open>
  \<^verbatim>\<open>processRtspFrameBuffer(serial, relayData)\<close>, lines 1699-1746. It stores the frame in
  the \<^verbatim>\<open>jpegStreams\<close> entry of the serial, which it creates when there is none; the
  \<^verbatim>\<open>continue\<close> of the throttle skips everything after it.
\<close>

definition freshStreamData :: streamData where
  "freshStreamData =
     \<lparr>buffer = [], lastFrameTime = 0, frameCount = 0, lastSendTime = 0,
      lastFrame = None, clients = []\<rparr>"

function processRtspFrameBuffer ::
  "bool \<Rightarrow> int \<Rightarrow> jsval \<Rightarrow> (jsval \<rightharpoonup> streamData) \<Rightarrow> relayData
     \<Rightarrow> ((jsval \<rightharpoonup> streamData) \<times> relayData) \<times> emitted list" where
  "processRtspFrameBuffer apiConnected now serial streams rd =
     (case indexOf (buffer rd) JPEG_START of
        None \<Rightarrow> ((streams, rd\<lparr>buffer := []\<rparr>), [])
      | Some startIdx \<Rightarrow>
          let rd1 = (if startIdx > 0 then rd\<lparr>buffer := drop startIdx (buffer rd)\<rparr> else rd)
          in (case indexOfFrom (buffer rd1) JPEG_END 2 of
                None \<Rightarrow> ((streams, rd1), [])
              | Some endIdx \<Rightarrow>
                  let jpegData = take (endIdx + 2) (buffer rd1);
                      rd2 = rd1\<lparr>buffer := drop (endIdx + 2) (buffer rd1)\<rparr>
                  in if length jpegData > 100 then
                       let rd3 = rd2\<lparr>lastFrameTime := now, frameCount := frameCount rd2 + 1\<rparr>
                       in if now - lastSendTime rd3 < 200
                          then processRtspFrameBuffer apiConnected now serial streams rd3
                          else
                            let rd4 = rd3\<lparr>lastSendTime := now\<rparr>;
                                sd0 = (case streams serial of
                                         None \<Rightarrow> freshStreamData | Some sd \<Rightarrow> sd);
                                sd1 = sd0\<lparr>lastFrame := Some jpegData, lastFrameTime := now\<rparr>;
                                streams1 = streams(serial \<mapsto> sd1);
                                out = map (\<lambda>c. ClientFrame c jpegData) (clients sd1)
                                      @ (if apiConnected then [BridgeFrame jpegData now] else []);
                                r = processRtspFrameBuffer apiConnected now serial streams1 rd4
                            in (fst r, out @ snd r)
                     else processRtspFrameBuffer apiConnected now serial streams rd2))"
  by pat_completeness auto
termination
proof (relation "measure (\<lambda>(c, n, s, m, rd). length (buffer rd))", goal_cases)
  case 1
  then show ?case by simp
next
  case (2 apiConnected now serial streams rd startIdx rd1 endIdx jpegData rd2 rd3)
  from 2(3) have "length (drop (endIdx + 2) (buffer rd1)) < length (buffer rd1)"
    by (rule drop_frame_shorter)
  moreover from 2(2) have "length (buffer rd1) \<le> length (buffer rd)"
    by (simp split: if_splits)
  ultimately show ?case using 2 by simp
next
  case (3 apiConnected now serial streams rd startIdx rd1 endIdx jpegData rd2 rd3 rd4)
  from 3(3) have "length (drop (endIdx + 2) (buffer rd1)) < length (buffer rd1)"
    by (rule drop_frame_shorter)
  moreover from 3(2) have "length (buffer rd1) \<le> length (buffer rd)"
    by (simp split: if_splits)
  ultimately show ?case using 3 by simp
next
  case (4 apiConnected now serial streams rd startIdx rd1 endIdx jpegData rd2)
  from 4(3) have "length (drop (endIdx + 2) (buffer rd1)) < length (buffer rd1)"
    by (rule drop_frame_shorter)
  moreover from 4(2) have "length (buffer rd1) \<le> length (buffer rd)"
    by (simp split: if_splits)
  ultimately show ?case using 4 by simp
qed

definition marker_free :: "byte list \<Rightarrow> bool" where
  "marker_free xs \<longleftrightarrow> indexOf xs JPEG_START = None \<and> indexOf xs JPEG_END = None"

lemma indexOf_append_pair:
  assumes "a \<noteq> b" and "indexOf g [a, b] = None"
  shows "indexOf (g @ [a, b] @ r) [a, b] = Some (length g)"
  using assms(2)
proof (induction g)
  case Nil
  show ?case by simp
next
  case (Cons x g)
  from Cons.prems have t: "take 2 (x # g) \<noteq> [a, b]" and n: "indexOf g [a, b] = None"
    by (auto split: if_splits)
  have "take 2 (x # g @ [a, b] @ r) \<noteq> [a, b]"
  proof (cases g)
    case Nil
    with assms(1) show ?thesis by auto
  next
    case (Cons y g')
    with t show ?thesis by simp
  qed
  with Cons.IH [OF n] show ?case by simp
qed

lemma indexOf_START: "indexOf g JPEG_START = None \<Longrightarrow>
    indexOf (g @ JPEG_START @ r) JPEG_START = Some (length g)"
  unfolding JPEG_START_def by (rule indexOf_append_pair) simp_all

lemma indexOf_END: "indexOf p JPEG_END = None \<Longrightarrow>
    indexOfFrom (JPEG_START @ p @ JPEG_END @ r) JPEG_END 2 = Some (length p + 2)"
proof -
  assume "indexOf p JPEG_END = None"
  then have "indexOf (p @ JPEG_END @ r) JPEG_END = Some (length p)"
    unfolding JPEG_END_def by (intro indexOf_append_pair) simp_all
  then show ?thesis
    by (simp add: indexOfFrom_def JPEG_START_def)
qed

lemma indexOf_no_END: "indexOf p JPEG_END = None \<Longrightarrow>
    indexOfFrom (JPEG_START @ p) JPEG_END 2 = None"
  by (simp add: indexOfFrom_def JPEG_START_def)


lemma frame_take_drop:
  "take (length p + 2 + 2) (JPEG_START @ p @ JPEG_END @ r) = JPEG_START @ p @ JPEG_END"
  "drop (length p + 2 + 2) (JPEG_START @ p @ JPEG_END @ r) = r"
  by (simp_all add: JPEG_START_def JPEG_END_def)

declare processJpegBuffer.simps [simp del] processRtspFrameBuffer.simps [simp del]

lemma processJpegBuffer_step:
  assumes g: "indexOf g JPEG_START = None"
      and p: "indexOf p JPEG_END = None"
      and b: "buffer sd = g @ JPEG_START @ p @ JPEG_END @ r"
  shows "processJpegBuffer c now sd =
     (if length (JPEG_START @ p @ JPEG_END) > 100 then
        let sd3 = sd\<lparr>buffer := r, lastFrame := Some (JPEG_START @ p @ JPEG_END),
                     lastFrameTime := now, frameCount := frameCount sd + 1\<rparr>;
            send = (c \<and> now - lastSendTime sd \<ge> 200);
            sd4 = (if send then sd3\<lparr>lastSendTime := now\<rparr> else sd3);
            res = processJpegBuffer c now sd4
        in (fst res,
            (if send then [BridgeFrame (JPEG_START @ p @ JPEG_END) now] else [])
            @ map (\<lambda>cl. ClientFrame cl (JPEG_START @ p @ JPEG_END)) (clients sd)
            @ snd res)
      else processJpegBuffer c now (sd\<lparr>buffer := r\<rparr>))"
proof -
  have s: "indexOf (buffer sd) JPEG_START = Some (length g)"
    unfolding b using g by (rule indexOf_START)
  have e: "indexOfFrom (JPEG_START @ p @ JPEG_END @ r) JPEG_END 2 = Some (length p + 2)"
    using p by (rule indexOf_END)
  have d: "drop (length g) (buffer sd) = JPEG_START @ p @ JPEG_END @ r"
    by (simp add: b)
  have z: "length g = 0 \<Longrightarrow> buffer sd = JPEG_START @ p @ JPEG_END @ r"
    using b by simp
  have u: "processJpegBuffer c now sd =
      (let sd1 = (if length g > 0 then sd\<lparr>buffer := drop (length g) (buffer sd)\<rparr> else sd)
       in (case indexOfFrom (buffer sd1) JPEG_END 2 of
             None \<Rightarrow> (sd1, [])
           | Some endIdx \<Rightarrow>
               let jpegData = take (endIdx + 2) (buffer sd1);
                   sd2 = sd1\<lparr>buffer := drop (endIdx + 2) (buffer sd1)\<rparr>
               in if length jpegData > 100 then
                    let sd3 = sd2\<lparr>lastFrame := Some jpegData, lastFrameTime := now,
                                  frameCount := frameCount sd2 + 1\<rparr>;
                        send = (c \<and> now - lastSendTime sd3 \<ge> 200);
                        sd4 = (if send then sd3\<lparr>lastSendTime := now\<rparr> else sd3);
                        out = (if send then [BridgeFrame jpegData now] else [])
                              @ map (\<lambda>c. ClientFrame c jpegData) (clients sd4);
                        r = processJpegBuffer c now sd4
                    in (fst r, out @ snd r)
                  else processJpegBuffer c now sd2))"
    by (subst processJpegBuffer.simps) (simp only: s option.case)
  have b1: "buffer (if length g > 0 then sd\<lparr>buffer := drop (length g) (buffer sd)\<rparr> else sd)
      = JPEG_START @ p @ JPEG_END @ r"
    using d z by simp
  have r1: "(if length g > 0 then sd\<lparr>buffer := drop (length g) (buffer sd)\<rparr> else sd)
      \<lparr>buffer := r\<rparr> = sd\<lparr>buffer := r\<rparr>"
    by simp
  show ?thesis
    unfolding u Let_def b1 e option.case frame_take_drop r1
    by (cases c; cases "200 \<le> now - lastSendTime sd") simp_all
qed


lemma processJpegBuffer_no_start:
  "indexOf (buffer sd) JPEG_START = None \<Longrightarrow>
     processJpegBuffer c now sd = (sd\<lparr>buffer := []\<rparr>, [])"
  by (subst processJpegBuffer.simps) simp

lemma processJpegBuffer_no_end:
  assumes g: "indexOf g JPEG_START = None"
      and p: "indexOf rest JPEG_END = None"
      and b: "buffer sd = g @ JPEG_START @ rest"
  shows "processJpegBuffer c now sd = (sd\<lparr>buffer := JPEG_START @ rest\<rparr>, [])"
proof -
  have "indexOf (g @ JPEG_START @ rest) JPEG_START = Some (length g)"
    using g by (rule indexOf_START)
  then have s: "indexOf (buffer sd) JPEG_START = Some (length g)"
    by (simp only: b)
  have e: "indexOfFrom (JPEG_START @ rest) JPEG_END 2 = None"
    using p by (rule indexOf_no_END)
  have d: "drop (length g) (buffer sd) = JPEG_START @ rest"
    by (simp add: b)
  have z: "length g = 0 \<Longrightarrow> buffer sd = JPEG_START @ rest"
    using b by simp
  have b1: "buffer (if length g > 0 then sd\<lparr>buffer := drop (length g) (buffer sd)\<rparr> else sd)
      = JPEG_START @ rest"
    using d z by simp
  have r1: "(if length g > 0 then sd\<lparr>buffer := drop (length g) (buffer sd)\<rparr> else sd)
      = sd\<lparr>buffer := JPEG_START @ rest\<rparr>"
    using d z by simp
  show ?thesis
    apply (subst processJpegBuffer.simps)
    apply (simp only: s option.case Let_def r1)
    apply (simp add: e)
    done
qed

lemma processRtspFrameBuffer_step:
  assumes g: "indexOf g JPEG_START = None"
      and p: "indexOf p JPEG_END = None"
      and b: "buffer rd = g @ JPEG_START @ p @ JPEG_END @ r"
  shows "processRtspFrameBuffer c now serial streams rd =
     (if length (JPEG_START @ p @ JPEG_END) > 100 then
        let rd3 = rd\<lparr>buffer := r, lastFrameTime := now, frameCount := frameCount rd + 1\<rparr>
        in if now - lastSendTime rd < 200
           then processRtspFrameBuffer c now serial streams rd3
           else
             let sd0 = (case streams serial of None \<Rightarrow> freshStreamData | Some sd \<Rightarrow> sd);
                 sd1 = sd0\<lparr>lastFrame := Some (JPEG_START @ p @ JPEG_END), lastFrameTime := now\<rparr>;
                 res = processRtspFrameBuffer c now serial (streams(serial \<mapsto> sd1))
                         (rd3\<lparr>lastSendTime := now\<rparr>)
             in (fst res,
                 map (\<lambda>cl. ClientFrame cl (JPEG_START @ p @ JPEG_END)) (clients sd0)
                 @ (if c then [BridgeFrame (JPEG_START @ p @ JPEG_END) now] else [])
                 @ snd res)
      else processRtspFrameBuffer c now serial streams (rd\<lparr>buffer := r\<rparr>))"
proof -
  have "indexOf (g @ JPEG_START @ p @ JPEG_END @ r) JPEG_START = Some (length g)"
    using g by (rule indexOf_START)
  then have s: "indexOf (buffer rd) JPEG_START = Some (length g)"
    by (simp only: b)
  have e: "indexOfFrom (JPEG_START @ p @ JPEG_END @ r) JPEG_END 2 = Some (length p + 2)"
    using p by (rule indexOf_END)
  have d: "drop (length g) (buffer rd) = JPEG_START @ p @ JPEG_END @ r"
    by (simp add: b)
  have z: "length g = 0 \<Longrightarrow> buffer rd = JPEG_START @ p @ JPEG_END @ r"
    using b by simp
  have b1: "buffer (if length g > 0 then rd\<lparr>buffer := drop (length g) (buffer rd)\<rparr> else rd)
      = JPEG_START @ p @ JPEG_END @ r"
    using d z by simp
  have r1: "(if length g > 0 then rd\<lparr>buffer := drop (length g) (buffer rd)\<rparr> else rd)
      \<lparr>buffer := r\<rparr> = rd\<lparr>buffer := r\<rparr>"
    by simp
  show ?thesis
    apply (subst processRtspFrameBuffer.simps)
    apply (simp only: s option.case Let_def b1 e frame_take_drop r1)
    apply (cases c; cases "now - lastSendTime rd < 200")
    apply simp_all
    done
qed

lemma processRtspFrameBuffer_no_start:
  "indexOf (buffer rd) JPEG_START = None \<Longrightarrow>
     processRtspFrameBuffer c now serial streams rd = ((streams, rd\<lparr>buffer := []\<rparr>), [])"
  by (subst processRtspFrameBuffer.simps) simp

















lemma indexOf_replicate:
  "x \<noteq> a \<Longrightarrow> indexOf (replicate n x) [a, b] = None"
  by (induction n) simp_all

lemma marker_free_replicate: "x \<noteq> 0xFF \<Longrightarrow> marker_free (replicate n x)"
  by (simp add: marker_free_def JPEG_START_def JPEG_END_def indexOf_replicate)

lemma indexOf_Nil_marker: "indexOf [] JPEG_START = None" "indexOf [] JPEG_END = None"
  by (simp_all add: JPEG_START_def JPEG_END_def)

lemma marker_lengths:
  "length JPEG_START = 2" "length JPEG_END = 2" "JPEG_START \<noteq> []" "JPEG_END \<noteq> []"
  by (simp_all add: JPEG_START_def JPEG_END_def)

text \<open>
  C5 as stated fails at the boundary: it rejects the frames shorter than 100 bytes, the
  code rejects the frames of 100 bytes too (\<^verbatim>\<open>jpegData.length > 100\<close>). A frame of exactly
  100 bytes (both markers and 96 bytes between them) is cut out of the buffer, and is
  neither stored nor sent.
\<close>

theorem frame_of_100_bytes_counterexample:
  "length (JPEG_START @ replicate 96 0x11 @ JPEG_END) = 100
   \<and> processJpegBuffer True 1000
     \<lparr>buffer = [0x00, 0xFF] @ JPEG_START @ replicate 96 0x11 @ JPEG_END @ [0xD9, 0x01],
      lastFrameTime = 0, frameCount = 0, lastSendTime = 0, lastFrame = None, clients = [7]\<rparr>
   = (\<lparr>buffer = [], lastFrameTime = 0, frameCount = 0, lastSendTime = 0,
       lastFrame = None, clients = [7]\<rparr>, [])"
proof -
  have g: "indexOf [0x00, 0xFF] JPEG_START = None"
    by (simp add: JPEG_START_def)
  have p: "indexOf (replicate 96 (0x11 :: byte)) JPEG_END = None"
    by (simp add: JPEG_END_def indexOf_replicate)
  let ?sd = "\<lparr>buffer = [0x00, 0xFF] @ JPEG_START @ replicate 96 0x11 @ JPEG_END @ [0xD9, 0x01],
      lastFrameTime = 0, frameCount = 0, lastSendTime = 0, lastFrame = None, clients = [7]\<rparr>"
  have b: "buffer ?sd = [0x00, 0xFF] @ JPEG_START @ replicate 96 0x11 @ JPEG_END @ [0xD9, 0x01]"
    by simp
  show ?thesis
    unfolding processJpegBuffer_step [OF g p b] Let_def
    by (simp add: marker_lengths processJpegBuffer_no_start JPEG_START_def)
qed

text \<open>
  C5, amended. A buffer made of marker-free bytes, the start marker, \<open>N\<close> marker-free
  bytes, the end marker and marker-free bytes again: the call takes out exactly the frame
  from the start marker to the end marker, both included, and leaves an empty buffer. The
  frame is stored as the last frame and sent to every subscriber (and to the control
  service when it is connected and 200 ms have passed) when it is longer than 100 bytes;
  a frame of 100 bytes or fewer is neither stored nor sent. A buffer with a start marker
  and no end marker after it gives no frame and is kept from the start marker on.
\<close>

theorem processJpegBuffer_one_frame:
  "(marker_free g1 \<and> marker_free payload \<and> marker_free g2
      \<and> buffer sd = g1 @ JPEG_START @ payload @ JPEG_END @ g2 \<longrightarrow>
    processJpegBuffer c now sd =
      (if length (JPEG_START @ payload @ JPEG_END) > 100 then
         (if c \<and> now - lastSendTime sd \<ge> 200
          then sd\<lparr>buffer := [], lastFrame := Some (JPEG_START @ payload @ JPEG_END),
                  lastFrameTime := now, frameCount := frameCount sd + 1,
                  lastSendTime := now\<rparr>
          else sd\<lparr>buffer := [], lastFrame := Some (JPEG_START @ payload @ JPEG_END),
                  lastFrameTime := now, frameCount := frameCount sd + 1\<rparr>,
          (if c \<and> now - lastSendTime sd \<ge> 200
           then [BridgeFrame (JPEG_START @ payload @ JPEG_END) now] else [])
          @ map (\<lambda>k. ClientFrame k (JPEG_START @ payload @ JPEG_END)) (clients sd))
       else (sd\<lparr>buffer := []\<rparr>, [])))
   \<and> (indexOf g1 JPEG_START = None \<and> indexOf rest JPEG_END = None
      \<and> buffer sd = g1 @ JPEG_START @ rest \<longrightarrow>
    processJpegBuffer c now sd = (sd\<lparr>buffer := JPEG_START @ rest\<rparr>, []))"
proof (intro conjI impI)
  assume a: "marker_free g1 \<and> marker_free payload \<and> marker_free g2
      \<and> buffer sd = g1 @ JPEG_START @ payload @ JPEG_END @ g2"
  then have g1: "indexOf g1 JPEG_START = None" and p: "indexOf payload JPEG_END = None"
    and g2: "indexOf g2 JPEG_START = None"
    and b: "buffer sd = g1 @ JPEG_START @ payload @ JPEG_END @ g2"
    by (simp_all add: marker_free_def)
  note step = processJpegBuffer_step [OF g1 p b, of c now]
  show "processJpegBuffer c now sd =
      (if length (JPEG_START @ payload @ JPEG_END) > 100 then
         (if c \<and> now - lastSendTime sd \<ge> 200
          then sd\<lparr>buffer := [], lastFrame := Some (JPEG_START @ payload @ JPEG_END),
                  lastFrameTime := now, frameCount := frameCount sd + 1,
                  lastSendTime := now\<rparr>
          else sd\<lparr>buffer := [], lastFrame := Some (JPEG_START @ payload @ JPEG_END),
                  lastFrameTime := now, frameCount := frameCount sd + 1\<rparr>,
          (if c \<and> now - lastSendTime sd \<ge> 200
           then [BridgeFrame (JPEG_START @ payload @ JPEG_END) now] else [])
          @ map (\<lambda>k. ClientFrame k (JPEG_START @ payload @ JPEG_END)) (clients sd))
       else (sd\<lparr>buffer := []\<rparr>, []))"
    unfolding step Let_def
    by (simp add: processJpegBuffer_no_start g2)
next
  assume "indexOf g1 JPEG_START = None \<and> indexOf rest JPEG_END = None
      \<and> buffer sd = g1 @ JPEG_START @ rest"
  then show "processJpegBuffer c now sd = (sd\<lparr>buffer := JPEG_START @ rest\<rparr>, [])"
    by (intro processJpegBuffer_no_end [of g1 rest]) simp_all
qed


lemma marker_free_small:
  "marker_free [0x00, 0xFF]" "marker_free [0xD9, 0x01]"
  by (simp_all add: marker_free_def JPEG_START_def JPEG_END_def)

theorem processJpegBuffer_one_frame_witness:
  "processJpegBuffer True 1000
     \<lparr>buffer = [0x00, 0xFF] @ JPEG_START @ replicate 97 0x11 @ JPEG_END @ [0xD9, 0x01],
      lastFrameTime = 0, frameCount = 0, lastSendTime = 0, lastFrame = None, clients = [7]\<rparr>
   = (\<lparr>buffer = [], lastFrameTime = 1000, frameCount = 1, lastSendTime = 1000,
       lastFrame = Some (JPEG_START @ replicate 97 0x11 @ JPEG_END), clients = [7]\<rparr>,
      [BridgeFrame (JPEG_START @ replicate 97 0x11 @ JPEG_END) 1000,
       ClientFrame 7 (JPEG_START @ replicate 97 0x11 @ JPEG_END)])
   \<and> processJpegBuffer True 1000
     \<lparr>buffer = [0x00, 0xFF] @ JPEG_START @ replicate 20 0x11 @ JPEG_END @ [0xD9, 0x01],
      lastFrameTime = 0, frameCount = 0, lastSendTime = 0, lastFrame = None, clients = [7]\<rparr>
   = (\<lparr>buffer = [], lastFrameTime = 0, frameCount = 0, lastSendTime = 0,
       lastFrame = None, clients = [7]\<rparr>, [])
   \<and> processJpegBuffer True 1000
     \<lparr>buffer = [0x00, 0xFF] @ JPEG_START @ replicate 96 0x11 @ JPEG_END @ [0xD9, 0x01],
      lastFrameTime = 0, frameCount = 0, lastSendTime = 0, lastFrame = None, clients = [7]\<rparr>
   = (\<lparr>buffer = [], lastFrameTime = 0, frameCount = 0, lastSendTime = 0,
       lastFrame = None, clients = [7]\<rparr>, [])
   \<and> processJpegBuffer True 1000
     \<lparr>buffer = [0x00] @ JPEG_START @ [0x01, 0xFF],
      lastFrameTime = 0, frameCount = 0, lastSendTime = 0, lastFrame = None, clients = [7]\<rparr>
   = (\<lparr>buffer = JPEG_START @ [0x01, 0xFF], lastFrameTime = 0, frameCount = 0,
       lastSendTime = 0, lastFrame = None, clients = [7]\<rparr>, [])"
proof -
  have m: "marker_free (replicate 97 (0x11 :: byte))" "marker_free (replicate 20 (0x11 :: byte))"
      "marker_free (replicate 96 (0x11 :: byte))"
    by (simp_all add: marker_free_replicate)
  have i: "indexOf [0x00] JPEG_START = None" "indexOf [0x01, 0xFF] JPEG_END = None"
    by (simp_all add: JPEG_START_def JPEG_END_def)
  show ?thesis
    using
      processJpegBuffer_one_frame [of "[0x00, 0xFF]" "replicate 97 0x11" "[0xD9, 0x01]"
        "\<lparr>buffer = [0x00, 0xFF] @ JPEG_START @ replicate 97 0x11 @ JPEG_END @ [0xD9, 0x01],
          lastFrameTime = 0, frameCount = 0, lastSendTime = 0, lastFrame = None,
          clients = [7]\<rparr>" True 1000, THEN conjunct1]
      processJpegBuffer_one_frame [of "[0x00, 0xFF]" "replicate 20 0x11" "[0xD9, 0x01]"
        "\<lparr>buffer = [0x00, 0xFF] @ JPEG_START @ replicate 20 0x11 @ JPEG_END @ [0xD9, 0x01],
          lastFrameTime = 0, frameCount = 0, lastSendTime = 0, lastFrame = None,
          clients = [7]\<rparr>" True 1000, THEN conjunct1]
      processJpegBuffer_one_frame [of "[0x00, 0xFF]" "replicate 96 0x11" "[0xD9, 0x01]"
        "\<lparr>buffer = [0x00, 0xFF] @ JPEG_START @ replicate 96 0x11 @ JPEG_END @ [0xD9, 0x01],
          lastFrameTime = 0, frameCount = 0, lastSendTime = 0, lastFrame = None,
          clients = [7]\<rparr>" True 1000, THEN conjunct1]
      processJpegBuffer_one_frame [where ?g1.0 = "[0x00]" and rest = "[0x01, 0xFF]"
        and c = True and now = 1000 and sd = "\<lparr>buffer = [0x00] @ JPEG_START @ [0x01, 0xFF],
          lastFrameTime = 0, frameCount = 0, lastSendTime = 0, lastFrame = None,
          clients = [7]\<rparr>", THEN conjunct2]
    by (simp add: m i marker_free_small JPEG_START_def JPEG_END_def)
qed


text \<open>A frame of 101 bytes, and two sessions that start from the same bytes.\<close>

definition frameOf :: "byte \<Rightarrow> byte list" where
  "frameOf x = JPEG_START @ replicate 97 x @ JPEG_END"



definition directSession :: "byte list \<Rightarrow> streamData" where
  "directSession bytes =
     \<lparr>buffer = bytes, lastFrameTime = 0, frameCount = 0, lastSendTime = 0,
      lastFrame = None, clients = [7]\<rparr>"

definition relaySession :: "byte list \<Rightarrow> relayData" where
  "relaySession bytes =
     \<lparr>buffer = bytes, lastFrameTime = 0, frameCount = 0, lastSendTime = 0, active = True\<rparr>"







text \<open>
  With the control service disconnected the relay path still moves its last send time
  forward at a valid frame outside the window; the direct path moves it only when it
  forwards a frame upstream. So the two agree on the last send time only while connected.
\<close>

lemma relay_last_send_disconnected:
  "lastSendTime (fst (processJpegBuffer False 1000 (directSession (frameOf 1)))) = 0
   \<and> lastSendTime (snd (fst (processRtspFrameBuffer False 1000 (JStr ''S1'')
        [JStr ''S1'' \<mapsto> directSession []] (relaySession (frameOf 1))))) = 1000"
proof -
  have p: "indexOf (replicate 97 (1 :: byte)) JPEG_END = None"
    by (simp add: JPEG_END_def indexOf_replicate)
  have b: "buffer (directSession (frameOf 1)) = [] @ JPEG_START @ replicate 97 1 @ JPEG_END @ []"
    and b': "buffer (relaySession (frameOf 1)) = [] @ JPEG_START @ replicate 97 1 @ JPEG_END @ []"
    by (simp_all add: directSession_def relaySession_def frameOf_def)
  have J: "lastSendTime (fst (processJpegBuffer False 1000 (directSession (frameOf 1)))) = 0"
    unfolding processJpegBuffer_step [OF indexOf_Nil_marker(1) p b] Let_def
    by (simp add: marker_lengths processJpegBuffer_no_start indexOf_Nil_marker directSession_def)
  have R: "lastSendTime (snd (fst (processRtspFrameBuffer False 1000 (JStr ''S1'')
        [JStr ''S1'' \<mapsto> directSession []] (relaySession (frameOf 1))))) = 1000"
    unfolding processRtspFrameBuffer_step [OF indexOf_Nil_marker(1) p b'] Let_def
    by (simp add: marker_lengths processRtspFrameBuffer_no_start indexOf_Nil_marker
        relaySession_def)
  from J R show ?thesis by simp
qed




section \<open>Strings\<close>

text \<open>
  String conversion as \<^verbatim>\<open>+\<close> with a string operand, \<^verbatim>\<open>String(v)\<close> and template literals
  do it: decimal digits for an integer (below \<open>10 ^ 21\<close>, where JavaScript switches to
  exponents), the elements joined by commas for an array. \<^verbatim>\<open>toUpperCase\<close> on ASCII
  letters, and \<^verbatim>\<open>s.includes(pat)\<close>.
\<close>

fun showNat :: "nat \<Rightarrow> string" where
  "showNat n = (if n < 10 then [''0123456789'' ! n]
                else showNat (n div 10) @ [''0123456789'' ! (n mod 10)])"

declare showNat.simps [simp del]

definition showInt :: "int \<Rightarrow> string" where
  "showInt n = (if n < 0 then CHR ''-'' # showNat (nat (- n)) else showNat (nat n))"

fun joinWith :: "string \<Rightarrow> string list \<Rightarrow> string" where
  "joinWith sep [] = []"
| "joinWith sep [x] = x"
| "joinWith sep (x # y # ys) = x @ sep @ joinWith sep (y # ys)"

fun ToString :: "jsval \<Rightarrow> string" where
  "ToString JUndefined = ''undefined''"
| "ToString JNull = ''null''"
| "ToString (JBool b) = (if b then ''true'' else ''false'')"
| "ToString (JNum n) = showInt n"
| "ToString (JStr s) = s"
| "ToString (JArr xs) = joinWith '','' (map (\<lambda>x. if nullish x then [] else ToString x) xs)"
| "ToString (JObj ps) = ''[object Object]''"

definition toUpperCase :: "string \<Rightarrow> string" where
  "toUpperCase s =
     map (\<lambda>c. case map_of (zip ''abcdefghijklmnopqrstuvwxyz'' ''ABCDEFGHIJKLMNOPQRSTUVWXYZ'') c of
                Some u \<Rightarrow> u | None \<Rightarrow> c) s"

fun str_includes :: "string \<Rightarrow> string \<Rightarrow> bool" where
  "str_includes [] pat = (pat = [])"
| "str_includes (c # cs) pat = (take (length pat) (c # cs) = pat \<or> str_includes cs pat)"


section \<open>Device sessions and the reconnect policy\<close>

text \<open>
  The module-level maps of \<^verbatim>\<open>src/main.js\<close>, keyed by the serial number, are the fields
  of one record. \<open>pendingTimers\<close> are the \<^verbatim>\<open>setTimeout\<close> callbacks that
  \<^verbatim>\<open>scheduleReconnect\<close> has registered and that have neither fired nor been cleared; each
  keeps the \<^verbatim>\<open>cached\<close> printer of its closure. \<open>clientsOpening\<close> are the clients that
  \<^verbatim>\<open>mqtt.connect\<close> has created and that have not yet reported \<^verbatim>\<open>connect\<close> or
  \<^verbatim>\<open>close\<close>. Delays are in milliseconds. Log lines and the status messages sent upstream
  are not modelled.
\<close>

type_synonym serial = jsval
type_synonym obj = "(string \<times> jsval) list"

record mqttClient =
  debugAmsCmd :: bool

record reconnectTimer =
  timerHandle :: nat
  timerSerial :: serial
  timerDelay :: nat
  timerCached :: obj

record bridge =
  mqttClients :: "serial \<rightharpoonup> mqttClient"
  printers :: "serial \<rightharpoonup> obj"
  printerDataCache :: "serial \<rightharpoonup> obj"
  printerReconnectTimers :: "serial \<rightharpoonup> nat"
  reconnectAttempts :: "serial \<rightharpoonup> nat"
  mqttErrorThrottle :: "serial \<rightharpoonup> int"
  cameraUrls :: "serial \<rightharpoonup> jsval"
  cameraStreams :: "jsval \<rightharpoonup> jsval"
  jpegStreams :: "serial \<rightharpoonup> streamData"
  rtspFrameRelays :: "serial \<rightharpoonup> relayData"
  pendingTimers :: "reconnectTimer list"
  nextHandle :: nat
  clientsOpening :: "obj list"

definition serialNumberOf :: "obj \<Rightarrow> serial" where
  "serialNumberOf printer = prop_of (JObj printer) ''serialNumber''"

definition objSet :: "obj \<Rightarrow> string \<Rightarrow> jsval \<Rightarrow> obj" where
  "objSet ps k v = (if k \<in> fst ` set ps then map (\<lambda>(k', v'). if k' = k then (k', v) else (k', v')) ps
                    else ps @ [(k, v)])"

text \<open>
  \<^verbatim>\<open>scheduleReconnect\<close> (lines 783-810): \<^verbatim>\<open>Math.min(5000 * Math.pow(2, attempts), 120000)\<close>.
  It registers a new timer and overwrites the map entry; it clears no timer.
\<close>

definition scheduleReconnect :: "bridge \<Rightarrow> serial \<Rightarrow> bridge" where
  "scheduleReconnect b serialNumber =
     (case printerDataCache b serialNumber of
        None \<Rightarrow> b
      | Some cached \<Rightarrow>
          if mqttClients b serialNumber \<noteq> None then b
          else
            let attempts = (case reconnectAttempts b serialNumber of None \<Rightarrow> 0 | Some a \<Rightarrow> a);
                delay = min (5000 * 2 ^ attempts) 120000;
                timer = \<lparr>timerHandle = nextHandle b, timerSerial = serialNumber,
                         timerDelay = delay, timerCached = cached\<rparr>
            in b\<lparr>reconnectAttempts := (reconnectAttempts b)(serialNumber \<mapsto> attempts + 1),
                 pendingTimers := timer # pendingTimers b,
                 nextHandle := nextHandle b + 1,
                 printerReconnectTimers :=
                   (printerReconnectTimers b)(serialNumber \<mapsto> nextHandle b)\<rparr>)"

definition resetReconnectCounter :: "bridge \<Rightarrow> serial \<Rightarrow> bridge" where
  "resetReconnectCounter b serialNumber =
     b\<lparr>reconnectAttempts := (reconnectAttempts b)(serialNumber := None),
       mqttErrorThrottle := (mqttErrorThrottle b)(serialNumber := None)\<rparr>"

definition clearTimeout :: "bridge \<Rightarrow> nat \<Rightarrow> bridge" where
  "clearTimeout b h = b\<lparr>pendingTimers := filter (\<lambda>t. timerHandle t \<noteq> h) (pendingTimers b)\<rparr>"

text \<open>
  \<^verbatim>\<open>connectPrinter\<close> (lines 304-325) up to the creation of the client, and the client's
  \<^verbatim>\<open>connect\<close> and \<^verbatim>\<open>close\<close> handlers (lines 327-339 and 751-777). The camera session
  that the \<^verbatim>\<open>connect\<close> handler starts is left out here; it does not touch the reconnect
  state.
\<close>

definition connectPrinter :: "bridge \<Rightarrow> obj \<Rightarrow> bridge" where
  "connectPrinter b printer =
     (let s = serialNumberOf printer in
      if mqttClients b s \<noteq> None then b
      else
        let b1 = b\<lparr>printerDataCache := (printerDataCache b)(s \<mapsto> printer)\<rparr>;
            b2 = (case printerReconnectTimers b1 s of
                    None \<Rightarrow> b1
                  | Some h \<Rightarrow> (clearTimeout b1 h)
                      \<lparr>printerReconnectTimers := (printerReconnectTimers b1)(s := None)\<rparr>)
        in b2\<lparr>clientsOpening := clientsOpening b2 @ [printer]\<rparr>)"

definition clientConnect :: "bridge \<Rightarrow> obj \<Rightarrow> bridge" where
  "clientConnect b printer =
     (let s = serialNumberOf printer;
          b1 = b\<lparr>clientsOpening := remove1 printer (clientsOpening b),
                 mqttClients := (mqttClients b)(s \<mapsto> \<lparr>debugAmsCmd = False\<rparr>),
                 printers := (printers b)(s \<mapsto> objSet printer ''online'' (JBool True))\<rparr>
      in resetReconnectCounter b1 s)"

definition clientClose :: "bridge \<Rightarrow> obj \<Rightarrow> bridge" where
  "clientClose b printer =
     (let s = serialNumberOf printer;
          b1 = b\<lparr>clientsOpening := remove1 printer (clientsOpening b),
                 mqttClients := (mqttClients b)(s := None)\<rparr>;
          b2 = (case printers b1 s of
                  None \<Rightarrow> b1
                | Some pr \<Rightarrow> b1\<lparr>printers := (printers b1)(s \<mapsto> objSet pr ''online'' (JBool False))\<rparr>)
      in scheduleReconnect b2 s)"

text \<open>The callback of the reconnect timer (lines 802-807).\<close>

definition reconnectTimerFired :: "bridge \<Rightarrow> reconnectTimer \<Rightarrow> bridge" where
  "reconnectTimerFired b t =
     (let b1 = b\<lparr>pendingTimers := filter (\<lambda>u. timerHandle u \<noteq> timerHandle t) (pendingTimers b),
                 printerReconnectTimers := (printerReconnectTimers b)(timerSerial t := None)\<rparr>
      in if mqttClients b1 (timerSerial t) = None then connectPrinter b1 (timerCached t) else b1)"

text \<open>
  The \<^verbatim>\<open>printer:remove\<close> handler (lines 216-229). \<^verbatim>\<open>stopJpegStream\<close> and
  \<^verbatim>\<open>stopRtspFrameRelay\<close> close what the session owns (socket, watchdog, subscribers) and
  delete its entry. \<^verbatim>\<open>client.end()\<close> makes the client report \<^verbatim>\<open>close\<close>, which is
  \<open>clientClose\<close>.
\<close>

definition stopJpegStream :: "bridge \<Rightarrow> serial \<Rightarrow> bridge" where
  "stopJpegStream b s =
     (case jpegStreams b s of
        None \<Rightarrow> b
      | Some stream \<Rightarrow> b\<lparr>jpegStreams := (jpegStreams b)(s := None)\<rparr>)"

definition stopRtspFrameRelay :: "bridge \<Rightarrow> serial \<Rightarrow> bridge" where
  "stopRtspFrameRelay b s =
     (case rtspFrameRelays b s of
        None \<Rightarrow> b
      | Some relay \<Rightarrow> b\<lparr>rtspFrameRelays := (rtspFrameRelays b)(s := None)\<rparr>)"

definition printerRemove :: "bridge \<Rightarrow> serial \<Rightarrow> bridge" where
  "printerRemove b s =
     (case mqttClients b s of
        None \<Rightarrow> b
      | Some client \<Rightarrow>
          stopRtspFrameRelay
            (stopJpegStream
               (b\<lparr>mqttClients := (mqttClients b)(s := None),
                   printers := (printers b)(s := None),
                   cameraUrls := (cameraUrls b)(s := None),
                   cameraStreams := (cameraStreams b)(JStr (''cam_'' @ ToString s) := None)\<rparr>)
               s)
            s)"

definition emptyBridge :: bridge where
  "emptyBridge =
     \<lparr>mqttClients = Map.empty, printers = Map.empty, printerDataCache = Map.empty,
      printerReconnectTimers = Map.empty, reconnectAttempts = Map.empty,
      mqttErrorThrottle = Map.empty, cameraUrls = Map.empty, cameraStreams = Map.empty,
      jpegStreams = Map.empty, rtspFrameRelays = Map.empty, pendingTimers = [],
      nextHandle = 0, clientsOpening = []\<rparr>"

text \<open>
  Repeated immediate failures: the client closes, which schedules a reconnect; the
  timer fires and creates the next client, which closes again. \<open>reconnectDelays n\<close>
  lists the delays of the first \<open>n\<close> timers.
\<close>

fun reconnectDelays :: "nat \<Rightarrow> bridge \<Rightarrow> obj \<Rightarrow> nat list" where
  "reconnectDelays 0 b printer = []"
| "reconnectDelays (Suc n) b printer =
     (case pendingTimers (clientClose b printer) of
        [] \<Rightarrow> []
      | t # ts \<Rightarrow> timerDelay t # reconnectDelays n (reconnectTimerFired (clientClose b printer) t) printer)"

definition attemptsOf :: "bridge \<Rightarrow> serial \<Rightarrow> nat" where
  "attemptsOf b s = (case reconnectAttempts b s of None \<Rightarrow> 0 | Some a \<Rightarrow> a)"

definition backoff :: "nat \<Rightarrow> nat" where
  "backoff k = min (5000 * 2 ^ k) 120000"

lemma clientClose_timer:
  assumes "printerDataCache b (serialNumberOf p) = Some c"
  shows "\<exists>ts. pendingTimers (clientClose b p) =
           \<lparr>timerHandle = nextHandle b, timerSerial = serialNumberOf p,
            timerDelay = backoff (attemptsOf b (serialNumberOf p)), timerCached = c\<rparr> # ts"
    and "attemptsOf (clientClose b p) (serialNumberOf p) = attemptsOf b (serialNumberOf p) + 1"
    and "printerDataCache (clientClose b p) = printerDataCache b"
    and "mqttClients (clientClose b p) (serialNumberOf p) = None"
  using assms
  by (auto simp: clientClose_def scheduleReconnect_def Let_def attemptsOf_def backoff_def
      split: option.splits)

lemma fired_keeps:
  assumes "mqttClients b (timerSerial t) = None" "serialNumberOf (timerCached t) = timerSerial t"
  shows "attemptsOf (reconnectTimerFired b t) s = attemptsOf b s"
    and "printerDataCache (reconnectTimerFired b t) (timerSerial t) = Some (timerCached t)"
  using assms
  by (auto simp: reconnectTimerFired_def connectPrinter_def Let_def attemptsOf_def clearTimeout_def
      split: option.splits)

lemma reconnectDelays_from:
  assumes "printerDataCache b (serialNumberOf p) = Some c" "serialNumberOf c = serialNumberOf p"
  shows "reconnectDelays n b p = map (\<lambda>k. backoff (attemptsOf b (serialNumberOf p) + k)) [0..<n]"
  using assms
proof (induction n arbitrary: b)
  case 0
  show ?case by simp
next
  case (Suc n)
  let ?s = "serialNumberOf p"
  let ?b1 = "clientClose b p"
  from clientClose_timer(1) [OF Suc.prems(1)] obtain ts where
    ts: "pendingTimers ?b1 = \<lparr>timerHandle = nextHandle b, timerSerial = ?s,
            timerDelay = backoff (attemptsOf b ?s), timerCached = c\<rparr> # ts"
    by blast
  let ?t = "\<lparr>timerHandle = nextHandle b, timerSerial = ?s,
            timerDelay = backoff (attemptsOf b ?s), timerCached = c\<rparr>"
  let ?b2 = "reconnectTimerFired ?b1 ?t"
  have m: "mqttClients ?b1 (timerSerial ?t) = None"
    using clientClose_timer(4) [OF Suc.prems(1)] by simp
  have c: "serialNumberOf (timerCached ?t) = timerSerial ?t"
    using Suc.prems(2) by simp
  have a2: "attemptsOf ?b2 ?s = attemptsOf b ?s + 1"
    using fired_keeps(1) [OF m c] clientClose_timer(2) [OF Suc.prems(1)] by simp
  have d2: "printerDataCache ?b2 ?s = Some c"
    using fired_keeps(2) [OF m c] by simp
  have "reconnectDelays n ?b2 p = map (\<lambda>k. backoff (attemptsOf ?b2 ?s + k)) [0..<n]"
    using d2 Suc.prems(2) by (rule Suc.IH)
  then have "reconnectDelays (Suc n) b p
      = backoff (attemptsOf b ?s) # map (\<lambda>k. backoff (attemptsOf b ?s + 1 + k)) [0..<n]"
    by (simp add: ts a2)
  also have "\<dots> = map (\<lambda>k. backoff (attemptsOf b ?s + k)) [0..<Suc n]"
    by (simp only: upt_conv_Cons [of 0 "Suc n"] map_Suc_upt [symmetric]) (simp add: comp_def)
  finally show ?case .
qed


lemma backoff_values:
  "map backoff [0..<7] = [5000, 10000, 20000, 40000, 80000, 120000, 120000]"
  by (simp add: backoff_def upt_rec)

lemma backoff_cap: "5 \<le> k \<Longrightarrow> backoff k = 120000"
proof -
  assume "5 \<le> k"
  then have "(2::nat) ^ 5 \<le> 2 ^ k"
    by (intro power_increasing) simp_all
  then have "(120000::nat) \<le> 5000 * 2 ^ k"
    by simp
  then show ?thesis by (simp add: backoff_def)
qed

lemma clientConnect_resets:
  "reconnectAttempts (clientConnect b p) (serialNumberOf p) = None"
  "printerDataCache (clientConnect b p) = printerDataCache b"
  by (simp_all add: clientConnect_def resetReconnectCounter_def Let_def)

text \<open>
  C3. For a device with a cached record and a fresh (or reset) reconnect counter, the
  delays scheduled for repeated immediate failures are 5 s, 10 s, 20 s, 40 s, 80 s,
  120 s, 120 s, ...: the \<open>k\<close>-th is \<open>min (5000 * 2 ^ k) 120000\<close> ms, which is 120 s from
  the sixth on. A successful open deletes the counter, which is then read as 0, so that
  the sequence starts again at 5 s.
\<close>

theorem reconnect_backoff_sequence:
  "printerDataCache b (serialNumberOf p) = Some p \<longrightarrow>
     (reconnectAttempts b (serialNumberOf p) = None \<longrightarrow>
        reconnectDelays n b p = map (\<lambda>k. min (5000 * 2 ^ k) 120000) [0..<n]
      \<and> reconnectDelays 7 b p = [5000, 10000, 20000, 40000, 80000, 120000, 120000]
      \<and> (\<forall>k. 5 \<le> k \<and> k < n \<longrightarrow> reconnectDelays n b p ! k = 120000))
   \<and> reconnectAttempts (clientConnect b p) (serialNumberOf p) = None
   \<and> reconnectDelays n (clientConnect b p) p = map (\<lambda>k. min (5000 * 2 ^ k) 120000) [0..<n]"
proof (intro impI conjI allI)
  assume c: "printerDataCache b (serialNumberOf p) = Some p"
  have c': "printerDataCache (clientConnect b p) (serialNumberOf p) = Some p"
    using c by (simp add: clientConnect_resets)
  have a': "attemptsOf (clientConnect b p) (serialNumberOf p) = 0"
    by (simp add: attemptsOf_def clientConnect_resets)
  show "reconnectAttempts (clientConnect b p) (serialNumberOf p) = None"
    by (rule clientConnect_resets)
  show "reconnectDelays n (clientConnect b p) p = map (\<lambda>k. min (5000 * 2 ^ k) 120000) [0..<n]"
    using reconnectDelays_from [OF c' refl, of n] by (simp add: a' backoff_def)
  assume f: "reconnectAttempts b (serialNumberOf p) = None"
  then have a: "attemptsOf b (serialNumberOf p) = 0"
    by (simp add: attemptsOf_def)
  have d: "reconnectDelays m b p = map backoff [0..<m]" for m
    using reconnectDelays_from [OF c refl, of m] by (simp add: a)
  show "reconnectDelays n b p = map (\<lambda>k. min (5000 * 2 ^ k) 120000) [0..<n]"
    by (simp add: d backoff_def)
  show "reconnectDelays 7 b p = [5000, 10000, 20000, 40000, 80000, 120000, 120000]"
    by (simp only: d backoff_values)
  fix k
  assume "5 \<le> k \<and> k < n"
  then show "reconnectDelays n b p ! k = 120000"
    by (simp add: d backoff_cap)
qed

definition printerS1 :: obj where
  "printerS1 = [(''serialNumber'', JStr ''S1''), (''name'', JStr ''P1S-Lab''),
                (''ipAddress'', JStr ''192.168.1.50''), (''accessCode'', JStr ''12345678''),
                (''model'', JStr ''P1S'')]"

theorem reconnect_backoff_sequence_witness:
  "reconnectDelays 7 (connectPrinter emptyBridge printerS1) printerS1
     = [5000, 10000, 20000, 40000, 80000, 120000, 120000]
   \<and> reconnectDelays 9 (connectPrinter emptyBridge printerS1) printerS1 ! 8 = 120000
   \<and> reconnectDelays 2 (clientConnect (connectPrinter emptyBridge printerS1) printerS1) printerS1
     = [5000, 10000]"
proof -
  have s: "serialNumberOf printerS1 = JStr ''S1''"
    by (simp add: serialNumberOf_def printerS1_def)
  have c: "printerDataCache (connectPrinter emptyBridge printerS1) (serialNumberOf printerS1)
      = Some printerS1"
    by (simp add: connectPrinter_def emptyBridge_def Let_def s)
  have f: "reconnectAttempts (connectPrinter emptyBridge printerS1) (serialNumberOf printerS1) = None"
    by (simp add: connectPrinter_def emptyBridge_def Let_def s)
  from reconnect_backoff_sequence [of "connectPrinter emptyBridge printerS1" printerS1 9]
    reconnect_backoff_sequence [of "connectPrinter emptyBridge printerS1" printerS1 2]
    c f
  show ?thesis
    by (simp add: upt_rec)
qed

text \<open>
  C4 fails on the code. A device whose link is down has a pending reconnect timer and
  no entry in \<^verbatim>\<open>mqttClients\<close>; the \<^verbatim>\<open>printer:remove\<close> handler does nothing for it, the
  timer stays and, when it fires, connects to the removed device again. A connected
  device is disconnected by the handler, but its cached record stays, so the
  \<^verbatim>\<open>close\<close> that follows schedules a reconnect for it.
\<close>

theorem printerRemove_leaves_reconnect:
  "pendingTimers (printerRemove
      (clientClose (clientConnect (connectPrinter emptyBridge printerS1) printerS1) printerS1)
      (JStr ''S1''))
     = [\<lparr>timerHandle = 0, timerSerial = JStr ''S1'', timerDelay = 5000, timerCached = printerS1\<rparr>]
   \<and> clientsOpening (reconnectTimerFired
       (printerRemove
         (clientClose (clientConnect (connectPrinter emptyBridge printerS1) printerS1) printerS1)
         (JStr ''S1''))
       \<lparr>timerHandle = 0, timerSerial = JStr ''S1'', timerDelay = 5000, timerCached = printerS1\<rparr>)
     = [printerS1]
   \<and> pendingTimers (clientClose
       (printerRemove (clientConnect (connectPrinter emptyBridge printerS1) printerS1) (JStr ''S1''))
       printerS1)
     = [\<lparr>timerHandle = 0, timerSerial = JStr ''S1'', timerDelay = 5000, timerCached = printerS1\<rparr>]"
proof -
  have s: "serialNumberOf printerS1 = JStr ''S1''"
    by (simp add: serialNumberOf_def printerS1_def)
  show ?thesis
    by (simp add: printerRemove_def clientClose_def clientConnect_def connectPrinter_def
        reconnectTimerFired_def scheduleReconnect_def resetReconnectCounter_def
        stopJpegStream_def stopRtspFrameRelay_def clearTimeout_def emptyBridge_def Let_def s)
qed


section \<open>Numbers with a fraction: the fan scaling\<close>

text \<open>
  \<^verbatim>\<open>Math.round((cmd.speed || 0) * 2.55)\<close> is computed in binary64. The literal
  \<^verbatim>\<open>2.55\<close> is the double nearest to 255/100, and the product is the exact product
  rounded to the nearest double, ties to the even significand. A double is the real
  number it stands for; \<open>toDouble\<close> rounds a real to 53 significant bits (for magnitudes
  in the normal range, \<open>2 ^ -1022\<close> up to \<open>2 ^ 1024\<close>, which is where the products of this
  section are). \<^verbatim>\<open>Math.round\<close> is the nearest integer, ties upwards.
\<close>

function floorlog2 :: "int \<Rightarrow> int" where
  "floorlog2 n = (if n < 2 then 0 else 1 + floorlog2 (n div 2))"
  by pat_completeness auto
termination
  by (relation "measure nat") auto

declare floorlog2.simps [simp del]

definition pow2 :: "int \<Rightarrow> real" where
  "pow2 e = (if 0 \<le> e then 2 ^ nat e else 1 / 2 ^ nat (- e))"

text \<open>The exponent \<open>e\<close> of a positive real \<open>a\<close>: \<open>2 ^ e \<le> a < 2 ^ (e + 1)\<close>.\<close>

definition exponentOf :: "real \<Rightarrow> int" where
  "exponentOf a =
     (if 1 \<le> a then floorlog2 \<lfloor>a\<rfloor>
      else - (1 + floorlog2 (\<lceil>1 / a\<rceil> - 1)))"

definition roundHalfEven :: "real \<Rightarrow> int" where
  "roundHalfEven q =
     (let f = \<lfloor>q\<rfloor>; r = q - of_int f
      in if r < 1 / 2 then f
         else if 1 / 2 < r then f + 1
         else if even f then f else f + 1)"

definition toDouble :: "real \<Rightarrow> real" where
  "toDouble x =
     (if x = 0 then 0
      else let e = exponentOf \<bar>x\<bar>;
               m = roundHalfEven (\<bar>x\<bar> / pow2 (e - 52))
           in sgn x * of_int m * pow2 (e - 52))"

definition mulDouble :: "real \<Rightarrow> real \<Rightarrow> real" where
  "mulDouble a b = toDouble (a * b)"

definition MathRound :: "real \<Rightarrow> int" where
  "MathRound x = \<lfloor>x + 1 / 2\<rfloor>"

text \<open>The literal \<^verbatim>\<open>2.55\<close>, and \<^verbatim>\<open>Math.round(speed * 2.55)\<close> for an integer
  \<open>speed\<close>.\<close>

definition lit_2_55 :: real where
  "lit_2_55 = toDouble (255 / 100)"

definition fanScale :: "int \<Rightarrow> int" where
  "fanScale speed = MathRound (mulDouble (of_int speed) lit_2_55)"

text \<open>The number a value stands for in arithmetic; strings, arrays and objects, which
  JavaScript parses, and \<^verbatim>\<open>undefined\<close>, which is NaN, are not modelled.\<close>

fun ToNumber :: "jsval \<Rightarrow> exn + int" where
  "ToNumber (JNum n) = Inr n"
| "ToNumber (JBool b) = Inr (if b then 1 else 0)"
| "ToNumber JNull = Inr 0"
| "ToNumber _ = Inl Unmodelled"

section \<open>The command translator\<close>

text \<open>
  \<^verbatim>\<open>executeCommand(serialNumber, command)\<close>, lines 818-1103. A payload is the object that
  the code hands to \<^verbatim>\<open>JSON.stringify\<close>; what the call does is the list of its effects, in
  order. Log lines are not modelled.
\<close>

datatype effect =
    Publish string jsval
  | PublishThenPushall string jsval
  | ClearAmsDebugAfter nat

definition nl :: string where
  "nl = [CHR 0x0A]"

definition gcodeLine :: "string \<Rightarrow> jsval" where
  "gcodeLine param =
     JObj [(''print'', JObj [(''command'', JStr ''gcode_line''), (''sequence_id'', JStr ''2006''),
                             (''param'', JStr param)]),
           (''user_id'', JStr ''1234567890'')]"

definition ledctrl :: "jsval \<Rightarrow> jsval \<Rightarrow> jsval \<Rightarrow> jsval \<Rightarrow> int \<Rightarrow> (string \<times> jsval)" where
  "ledctrl node mode onTime offTime loops =
     (''system'', JObj [(''sequence_id'', JStr ''0''), (''command'', JStr ''ledctrl''),
                        (''led_node'', node), (''led_mode'', mode),
                        (''led_on_time'', onTime), (''led_off_time'', offTime),
                        (''loop_times'', JNum loops), (''interval_time'', JNum 0)])"

definition userId :: "(string \<times> jsval)" where
  "userId = (''user_id'', JStr ''1234567890'')"

text \<open>\<^verbatim>\<open>printers.get(serialNumber)?.model?.toUpperCase() || ''\<close>: a model that is neither
  a string nor missing has no \<^verbatim>\<open>toUpperCase\<close>.\<close>

definition modelUpper :: "obj option \<Rightarrow> exn + string" where
  "modelUpper pr =
     (case pr of
        None \<Rightarrow> Inr []
      | Some ps \<Rightarrow>
          (case prop_of (JObj ps) ''model'' of
             JUndefined \<Rightarrow> Inr []
           | JNull \<Rightarrow> Inr []
           | JStr s \<Rightarrow> Inr (toUpperCase s)
           | _ \<Rightarrow> Inl TypeError))"

definition isH2Family :: "string \<Rightarrow> bool" where
  "isH2Family m \<longleftrightarrow> str_includes m ''H2D'' \<or> str_includes m ''H2S'' \<or> str_includes m ''H2C''"

definition onOff :: "jsval \<Rightarrow> jsval" where
  "onOff v = JStr (if truthy v then ''on'' else ''off'')"

definition fanParam :: "string \<Rightarrow> jsval \<Rightarrow> exn + jsval" where
  "fanParam prefix speed =
     (case ToNumber (js_or speed (JNum 0)) of
        Inl e \<Rightarrow> Inl e
      | Inr n \<Rightarrow> Inr (gcodeLine (prefix @ showInt (fanScale n) @ nl)))"

definition filamentCodeMap :: "(string \<times> string) list" where
  "filamentCodeMap =
     [(''PLA'', ''GFL99''), (''PLA-S'', ''GFL96''), (''PLA-CF'', ''GFL98''),
      (''PETG'', ''GFG99''), (''PETG-CF'', ''GFG98''),
      (''ABS'', ''GFB99''), (''ASA'', ''GFB98''),
      (''TPU'', ''GFU99''), (''PA'', ''GFN99''), (''PA-CF'', ''GFN98''),
      (''PC'', ''GFC99''), (''PVA'', ''GFS99''), (''HIPS'', ''GFS98'')]"

text \<open>The names that every object inherits; \<^verbatim>\<open>filamentCodeMap[name]\<close> is a function or
  an object for them, which is not modelled.\<close>

definition inheritedNames :: "string list" where
  "inheritedNames =
     [''constructor'', ''toString'', ''toLocaleString'', ''valueOf'', ''hasOwnProperty'',
      ''isPrototypeOf'', ''propertyIsEnumerable'', ''__proto__'', ''__defineGetter__'',
      ''__defineSetter__'', ''__lookupGetter__'', ''__lookupSetter__'']"

definition filamentCode :: "jsval \<Rightarrow> exn + jsval" where
  "filamentCode cmd =
     (if truthy (prop_of cmd ''trayInfoIdx'') then Inr (prop_of cmd ''trayInfoIdx'')
      else if ToString (prop_of cmd ''trayType'') \<in> set inheritedNames then Inl Unmodelled
      else (case map_of filamentCodeMap (ToString (prop_of cmd ''trayType'')) of
              Some c \<Rightarrow> Inr (JStr c)
            | None \<Rightarrow> Inr (JStr ''GFL99'')))"

definition optionField :: "jsval \<Rightarrow> string \<Rightarrow> string \<Rightarrow> (string \<times> jsval) list" where
  "optionField cmd k name =
     (if prop_of cmd k \<noteq> JUndefined then [(name, prop_of cmd k)] else [])"

text \<open>The result of the \<^verbatim>\<open>switch\<close>: the effects of a branch that returns by itself, or
  the payload that the common \<^verbatim>\<open>client.publish\<close> after the \<^verbatim>\<open>switch\<close> sends.\<close>

datatype branch = Return mqttClient "effect list" | Break "effect list" jsval

definition commandSwitch ::
  "bridge \<Rightarrow> mqttClient \<Rightarrow> serial \<Rightarrow> string \<Rightarrow> jsval \<Rightarrow> string \<Rightarrow> exn + branch" where
  "commandSwitch b client serialNumber topic cmd t =
     (let sys = (\<lambda>ps. JObj [(''system'', JObj ps)]);
          prt = (\<lambda>ps. JObj [(''print'', JObj ps)]);
          seq0 = (''sequence_id'', JStr ''0'');
          f = prop_of cmd
      in
      if t = ''pause'' then Inr (Break [] (prt [(''command'', JStr ''pause''), seq0]))
      else if t = ''resume'' then Inr (Break [] (prt [(''command'', JStr ''resume''), seq0]))
      else if t = ''stop'' then Inr (Break [] (prt [(''command'', JStr ''stop''), seq0]))
      else if t = ''chamberLight'' \<or> t = ''light'' then
        (case modelUpper (printers b serialNumber) of
           Inl e \<Rightarrow> Inl e
         | Inr m \<Rightarrow>
             if isH2Family m then
               Inr (Return client
                 [Publish topic (JObj [ledctrl (JStr ''chamber_light'') (onOff (f ''on''))
                                         (JNum 500) (JNum 500) 0, userId]),
                  Publish topic (JObj [ledctrl (JStr ''chamber_light2'') (onOff (f ''on''))
                                         (JNum 500) (JNum 500) 0, userId])])
             else Inr (Break [] (JObj [ledctrl (JStr ''chamber_light'') (onOff (f ''on''))
                                         (JNum 500) (JNum 500) 0, userId])))
      else if t = ''workLight'' then
        (case modelUpper (printers b serialNumber) of
           Inl e \<Rightarrow> Inl e
         | Inr m \<Rightarrow>
             if str_includes m ''A1'' then
               Inr (Return client
                 [Publish topic (JObj [ledctrl (JStr ''chamber_light'') (onOff (f ''on''))
                                         (JNum 500) (JNum 500) 0]),
                  Publish topic (JObj [ledctrl (JStr ''work_light'') (onOff (f ''on''))
                                         (JNum 500) (JNum 500) 0])])
             else if isH2Family m then
               Inr (Break [] (JObj [ledctrl (JStr ''chamber_light2'') (onOff (f ''on''))
                                      (JNum 500) (JNum 500) 0, userId]))
             else
               Inr (Break [] (JObj [ledctrl (JStr ''work_light'') (onOff (f ''on''))
                                      (JNum 500) (JNum 500) 0])))
      else if t = ''nozzleTemp'' then
        Inr (Break [] (gcodeLine (''M104 S'' @ ToString (f ''temp'') @ nl)))
      else if t = ''nozzle2Temp'' then
        Inr (Break [] (gcodeLine (''M104 T1 S'' @ ToString (f ''temp'') @ nl)))
      else if t = ''bedTemp'' then
        Inr (Break [] (gcodeLine (''M140 S'' @ ToString (f ''temp'') @ nl)))
      else if t = ''partFan'' then map_sum id (Break []) (fanParam ''M106 P1 S'' (f ''speed''))
      else if t = ''auxFan'' then map_sum id (Break []) (fanParam ''M106 P2 S'' (f ''speed''))
      else if t = ''chamberFan'' then map_sum id (Break []) (fanParam ''M106 P3 S'' (f ''speed''))
      else if t = ''speedLevel'' then
        Inr (Break [] (prt [(''command'', JStr ''print_speed''), seq0,
                            (''param'', JStr (ToString (f ''level'')))]))
      else if t = ''amsUnload'' \<or> t = ''unloadFilament'' then
        Inr (Break [] (prt [(''command'', JStr ''ams_change_filament''), seq0,
                            (''target'', JNum 255), (''curr_temp'', JNum 220),
                            (''tar_temp'', JNum 220)]))
      else if t = ''amsLoad'' \<or> t = ''loadFilament'' then
        Inr (Break [] (prt [(''command'', JStr ''ams_change_filament''), seq0,
                            (''target'', coalesce (f ''slot'') (coalesce (f ''trayId'') (JNum 0))),
                            (''curr_temp'', JNum 220), (''tar_temp'', JNum 220)]))
      else if t = ''gcode'' then
        Inr (Break [] (gcodeLine (ToString (f ''gcode'') @ nl)))
      else if t = ''home'' then Inr (Break [] (gcodeLine (''G28'' @ nl)))
      else if t = ''calibration'' then
        (if f ''calibrationType'' = JStr ''home'' then Inr (Break [] (gcodeLine (''G28'' @ nl)))
         else if f ''calibrationType'' = JStr ''bed_level''
           then Inr (Break [] (gcodeLine (''G29'' @ nl)))
         else Inr (Return client []))
      else if t = ''move'' then
        (let dist = js_or (f ''distance'') (JNum 10);
             axis = js_or (f ''axis'') (JStr ''X'')
         in Inr (Break
              [Publish topic (gcodeLine (''G91'' @ nl)),
               Publish topic (gcodeLine (''G0 '' @ ToString axis @ ToString dist @ '' F3000'' @ nl))]
              (gcodeLine (''G90'' @ nl))))
      else if t = ''xcamControl'' then
        Inr (Break [] (JObj [(''xcam'', JObj [seq0, (''command'', JStr ''xcam_control_set''),
               (''module_name'', f ''moduleName''), (''control'', f ''control''),
               (''print_halt'', js_or (f ''printHalt'') (JBool False))])]))
      else if t = ''printOption'' then
        Inr (Break [] (prt ([seq0, (''command'', JStr ''print_option'')]
               @ optionField cmd ''soundEnable'' ''sound_enable''
               @ optionField cmd ''autoRecovery'' ''auto_recovery''
               @ optionField cmd ''filamentTangleDetect'' ''filament_tangle_detect''
               @ optionField cmd ''nozzleBlobDetect'' ''nozzle_blob_detect''
               @ optionField cmd ''airPrintDetect'' ''air_print_detect'')))
      else if t = ''amsDrying'' then
        Inr (Break [] (prt [seq0, (''command'', JStr ''ams_filament_drying''),
               (''ams_id'', f ''amsId''), (''temp'', f ''temp''), (''cooling_temp'', JNum 0),
               (''duration'', f ''duration''), (''humidity'', JNum 0), (''mode'', f ''mode''),
               (''rotate_tray'', JBool False)]))
      else if t = ''amsUserSetting'' then
        Inr (Break [] (prt [seq0, (''command'', JStr ''ams_user_setting''),
               (''ams_id'', f ''amsId''), (''startup_read_option'', f ''startupReadOption''),
               (''tray_read_option'', f ''trayReadOption'')]))
      else if t = ''amsControl'' then
        Inr (Break [] (prt [seq0, (''command'', JStr ''ams_control''), (''param'', f ''param'')]))
      else if t = ''amsGetRfid'' then
        Inr (Break [] (prt [seq0, (''command'', JStr ''ams_get_rfid''),
               (''ams_id'', f ''amsId''), (''slot_id'', f ''slotId'')]))
      else if t = ''ipcamRecord'' then
        Inr (Break [] (JObj [(''camera'', JObj [seq0, (''command'', JStr ''ipcam_record_set''),
               (''control'', f ''control'')])]))
      else if t = ''ipcamTimelapse'' then
        Inr (Break [] (JObj [(''camera'', JObj [seq0, (''command'', JStr ''ipcam_timelapse''),
               (''control'', f ''control'')])]))
      else if t = ''setAccessories'' then
        Inr (Break [] (sys [seq0, (''command'', JStr ''set_accessories''),
               (''accessory_type'', JStr ''nozzle''), (''nozzle_diameter'', f ''nozzleDiameter''),
               (''nozzle_type'', f ''nozzleType'')]))
      else if t = ''getAccessories'' then
        Inr (Break [] (sys [seq0, (''command'', JStr ''get_accessories''),
               (''accessory_type'', JStr ''none'')]))
      else if t = ''getAccessCode'' then
        Inr (Break [] (sys [seq0, (''command'', JStr ''get_access_code'')]))
      else if t = ''skipObjects'' then
        Inr (Break [] (prt [seq0, (''command'', JStr ''skip_objects''),
               (''obj_list'', f ''objList'')]))
      else if t = ''buzzerCtrl'' then
        Inr (Break [] (prt [seq0, (''command'', JStr ''buzzer_ctrl''), (''mode'', f ''mode''),
               (''reason'', JStr '''')]))
      else if t = ''setAirduct'' then
        Inr (Break [] (prt [seq0, (''command'', JStr ''set_airduct''), (''modeId'', f ''modeId''),
               (''submode'', f ''submode'')]))
      else if t = ''heatbedLight'' then
        Inr (Break [] (JObj [ledctrl (JStr ''heatbed_light'') (onOff (f ''on''))
                               (JNum 500) (JNum 500) 0, userId]))
      else if t = ''ledFlashing'' then
        Inr (Break [] (JObj [ledctrl (f ''ledNode'') (JStr ''flashing'')
                               (f ''onTime'') (f ''offTime'') 1, userId]))
      else if t = ''amsFilamentSetting'' then
        (case filamentCode cmd of
           Inl e \<Rightarrow> Inl e
         | Inr code \<Rightarrow>
             Inr (Return (client\<lparr>debugAmsCmd := True\<rparr>)
               [ClearAmsDebugAfter 10000,
                PublishThenPushall topic
                  (prt [seq0, (''command'', JStr ''ams_filament_setting''),
                        (''ams_id'', f ''amsId''), (''slot_id'', f ''trayId''),
                        (''tray_id'', f ''trayId''), (''tray_info_idx'', code),
                        (''setting_id'', JStr ''''), (''tray_color'', f ''trayColor''),
                        (''nozzle_temp_min'', f ''nozzleTempMin''),
                        (''nozzle_temp_max'', f ''nozzleTempMax''),
                        (''tray_type'', f ''trayType'')])]))
      else Inr (Return client []))"

definition executeCommand :: "bridge \<Rightarrow> serial \<Rightarrow> jsval \<Rightarrow> exn + (bridge \<times> effect list)" where
  "executeCommand b serialNumber command =
     (case mqttClients b serialNumber of
        None \<Rightarrow> Inr (b, [])
      | Some client \<Rightarrow>
          let topic = ''device/'' @ ToString serialNumber @ ''/request'';
              cmd = (case command of JStr s \<Rightarrow> JObj [(''type'', command)] | _ \<Rightarrow> command)
          in (case strict_prop cmd ''type'' of
                Inl e \<Rightarrow> Inl e
              | Inr ty \<Rightarrow>
                  (case ty of
                     JStr t \<Rightarrow>
                       (case commandSwitch b client serialNumber topic cmd t of
                          Inl e \<Rightarrow> Inl e
                        | Inr (Return client' effs) \<Rightarrow>
                            Inr (b\<lparr>mqttClients := (mqttClients b)(serialNumber \<mapsto> client')\<rparr>,
                                 effs)
                        | Inr (Break effs payload) \<Rightarrow>
                            Inr (b, effs @ [Publish topic payload]))
                   | _ \<Rightarrow> Inr (b, []))))"




definition bridgeS1 :: bridge where
  "bridgeS1 = clientConnect (connectPrinter emptyBridge printerS1) printerS1"

definition topicS1 :: string where
  "topicS1 = ''device/S1/request''"

text \<open>Scaling and rounding in exact arithmetic: \<open>2.55 * n\<close> rounded to the nearest integer,
  ties upwards.\<close>

definition fanExact :: "int \<Rightarrow> int" where
  "fanExact n = (255 * n + 50) div 100"



lemma fanScale_zero: "fanScale 0 = 0"
  by (simp add: fanScale_def mulDouble_def toDouble_def MathRound_def)

lemma bridgeS1_client:
  "mqttClients bridgeS1 (JStr ''S1'') = Some \<lparr>debugAmsCmd = False\<rparr>"
  "modelUpper (printers bridgeS1 (JStr ''S1'')) = Inr ''P1S''"
  by (simp_all add: bridgeS1_def clientConnect_def connectPrinter_def emptyBridge_def
      resetReconnectCounter_def Let_def serialNumberOf_def printerS1_def modelUpper_def
      objSet_def toUpperCase_def)






lemma floorlog2_small: "n < 2 \<Longrightarrow> floorlog2 n = 0"
  by (simp add: floorlog2.simps)

lemma floorlog2_step: "2 \<le> n \<Longrightarrow> floorlog2 n = 1 + floorlog2 (n div 2)"
  by (subst floorlog2.simps) simp

lemmas double_eval = MathRound_def toDouble_def exponentOf_def roundHalfEven_def pow2_def
  floorlog2_small floorlog2_step Let_def

lemma literal_2_55: "lit_2_55 = 5742089524897382 / 2251799813685248"
  by (simp add: lit_2_55_def double_eval)

lemma product_50: "mulDouble 50 lit_2_55 = 8972014882652159 / 70368744177664"
  unfolding literal_2_55 mulDouble_def
  by (simp add: double_eval)

lemma fanScale_values: "fanScale 0 = 0" "fanScale 50 = 127" "fanScale 100 = 255"
  "fanScale 90 = 229"
  unfolding fanScale_def literal_2_55 mulDouble_def
  by (simp_all add: double_eval)

lemma fanScale_table:
  "\<forall>n \<in> set (map int [0..<101]).
     fanScale n = (if n = 50 \<or> n = 90 then fanExact n - 1 else fanExact n)"
  apply (simp add: upt_rec)
  apply (simp add: fanScale_def literal_2_55 mulDouble_def fanExact_def double_eval)
  done

lemma fanScale_0_100:
  assumes "0 \<le> n" "n \<le> 100"
  shows "fanScale n = (if n = 50 \<or> n = 90 then fanExact n - 1 else fanExact n)"
proof -
  from assms have "nat n \<in> set [0..<101]" by simp
  then have "int (nat n) \<in> int ` set [0..<101]" by (rule imageI)
  with assms have "n \<in> set (map int [0..<101])" by (simp only: set_map) simp
  with fanScale_table show ?thesis by blast
qed

lemma fanParam_num:
  "fanParam prefix (JNum n) = Inr (gcodeLine (prefix @ showInt (fanScale n) @ nl))"
  by (cases "n = 0") (simp_all add: fanParam_def js_or_def fanScale_zero)

lemma fan_command_part:
  assumes "mqttClients b s = Some client"
  shows "executeCommand b s (JObj [(''type'', JStr ''partFan''), (''speed'', JNum n)])
     = Inr (b, [Publish (''device/'' @ ToString s @ ''/request'')
          (gcodeLine (''M106 P1 S'' @ showInt (fanScale n) @ nl))])"
    and "executeCommand b s (JObj [(''type'', JStr ''auxFan''), (''speed'', JNum n)])
     = Inr (b, [Publish (''device/'' @ ToString s @ ''/request'')
          (gcodeLine (''M106 P2 S'' @ showInt (fanScale n) @ nl))])"
    and "executeCommand b s (JObj [(''type'', JStr ''chamberFan''), (''speed'', JNum n)])
     = Inr (b, [Publish (''device/'' @ ToString s @ ''/request'')
          (gcodeLine (''M106 P3 S'' @ showInt (fanScale n) @ nl))])"
  using assms
  by (simp_all add: executeCommand_def commandSwitch_def Let_def fanParam_num)

lemma fan_command:
  assumes "mqttClients b s = Some client" "t = ''partFan'' \<or> t = ''auxFan'' \<or> t = ''chamberFan''"
  shows "executeCommand b s (JObj [(''type'', JStr t), (''speed'', JNum n)])
     = Inr (b, [Publish (''device/'' @ ToString s @ ''/request'')
          (gcodeLine (''M106 P'' @ (if t = ''partFan'' then ''1'' else if t = ''auxFan'' then ''2''
                                   else ''3'') @ '' S'' @ showInt (fanScale n) @ nl))])"
proof -
  from assms(2) consider "t = ''partFan''" | "t = ''auxFan''" | "t = ''chamberFan''"
    by blast
  then show ?thesis
  proof cases
    case 1
    then show ?thesis using fan_command_part(1) [OF assms(1), of n] by simp
  next
    case 2
    then show ?thesis using fan_command_part(2) [OF assms(1), of n] by simp
  next
    case 3
    then show ?thesis using fan_command_part(3) [OF assms(1), of n] by simp
  qed
qed

text \<open>
  C7 as stated fails at 50: the double nearest to 2.55 is below 2.55, the product with 50
  rounds to the double just below 127.5, and \<^verbatim>\<open>Math.round\<close> gives 127, not 128.
\<close>

theorem fan_50_counterexample:
  "executeCommand bridgeS1 (JStr ''S1'') (JObj [(''type'', JStr ''partFan''), (''speed'', JNum 50)])
     = Inr (bridgeS1, [Publish topicS1 (gcodeLine (''M106 P1 S127'' @ nl))])
   \<and> mulDouble 50 lit_2_55 = 8972014882652159 / 70368744177664
   \<and> mulDouble 50 lit_2_55 < 255 / 2
   \<and> fanScale 50 \<noteq> 128"
proof -
  have "executeCommand bridgeS1 (JStr ''S1'')
      (JObj [(''type'', JStr ''partFan''), (''speed'', JNum 50)])
     = Inr (bridgeS1, [Publish topicS1 (gcodeLine (''M106 P1 S127'' @ nl))])"
    using fan_command [OF bridgeS1_client(1), of "''partFan''" 50]
    by (simp add: fanScale_values topicS1_def showInt_def showNat.simps)
  then show ?thesis
    by (simp add: product_50 fanScale_values)
qed

lemma fanExact_bounds:
  assumes "0 \<le> n" "n \<le> 100"
  shows "0 \<le> fanExact n" "fanExact n \<le> 255"
proof -
  from assms(1) have "0 \<le> 255 * n + 50" by simp
  then show "0 \<le> fanExact n"
    unfolding fanExact_def by (simp add: pos_imp_zdiv_nonneg_iff)
  from assms(2) have "255 * n + 50 \<le> 25550" by simp
  then have "(255 * n + 50) div 100 \<le> 25550 div 100"
    by (rule zdiv_mono1) simp
  then show "fanExact n \<le> 255"
    unfolding fanExact_def by simp
qed

lemma fanScale_bounds:
  assumes "0 \<le> n" "n \<le> 100"
  shows "0 \<le> fanScale n" "fanScale n \<le> 255"
proof -
  note e = fanScale_0_100 [OF assms]
  note x = fanExact_bounds [OF assms]
  have v: "fanExact 50 = 128" "fanExact 90 = 230"
    by (simp_all add: fanExact_def)
  show "0 \<le> fanScale n"
  proof (cases "n = 50 \<or> n = 90")
    case True
    then show ?thesis using e v by auto
  next
    case False
    then show ?thesis using e x by simp
  qed
  show "fanScale n \<le> 255"
  proof (cases "n = 50 \<or> n = 90")
    case True
    then show ?thesis using e v by auto
  next
    case False
    then show ?thesis using e x by simp
  qed
qed

text \<open>
  C7, amended. For a speed from 0 to 100 the native value is
  \<^verbatim>\<open>Math.round(speed * 2.55)\<close> computed in binary64; it is between 0 and 255, and it is
  the exactly scaled and rounded value \<open>\<lfloor>2.55 * speed + 1/2\<rfloor>\<close> except at 50 and 90,
  where it is one less (127 and 229). 0 gives 0 and 100 gives 255. The three fan commands
  publish it in \<^verbatim>\<open>M106 P1\<close>, \<^verbatim>\<open>M106 P2\<close> and \<^verbatim>\<open>M106 P3\<close>.
\<close>

theorem fan_scaling:
  "(0 \<le> n \<and> n \<le> 100 \<longrightarrow>
      0 \<le> fanScale n \<and> fanScale n \<le> 255
    \<and> fanScale n = (if n = 50 \<or> n = 90 then fanExact n - 1 else fanExact n)
    \<and> (mqttClients b s = Some client
          \<and> (t = ''partFan'' \<or> t = ''auxFan'' \<or> t = ''chamberFan'') \<longrightarrow>
        executeCommand b s (JObj [(''type'', JStr t), (''speed'', JNum n)])
          = Inr (b, [Publish (''device/'' @ ToString s @ ''/request'')
              (gcodeLine (''M106 P'' @ (if t = ''partFan'' then ''1''
                                        else if t = ''auxFan'' then ''2'' else ''3'')
                          @ '' S'' @ showInt (fanScale n) @ nl))])))
   \<and> fanScale 0 = 0 \<and> fanScale 100 = 255 \<and> fanScale 50 = 127 \<and> fanScale 90 = 229"
proof -
  have 1: "0 \<le> fanScale n \<and> fanScale n \<le> 255
    \<and> fanScale n = (if n = 50 \<or> n = 90 then fanExact n - 1 else fanExact n)"
    if "0 \<le> n \<and> n \<le> 100"
  proof -
    from that have a: "0 \<le> n" "n \<le> 100" by simp_all
    from fanScale_bounds [OF a] fanScale_0_100 [OF a] show ?thesis
      by (intro conjI)
  qed
  have 2: "executeCommand b s (JObj [(''type'', JStr t), (''speed'', JNum n)])
          = Inr (b, [Publish (''device/'' @ ToString s @ ''/request'')
              (gcodeLine (''M106 P'' @ (if t = ''partFan'' then ''1''
                                        else if t = ''auxFan'' then ''2'' else ''3'')
                          @ '' S'' @ showInt (fanScale n) @ nl))])"
    if "mqttClients b s = Some client
          \<and> (t = ''partFan'' \<or> t = ''auxFan'' \<or> t = ''chamberFan'')"
  proof -
    from that have c: "mqttClients b s = Some client"
      and t: "t = ''partFan'' \<or> t = ''auxFan'' \<or> t = ''chamberFan''"
      by (rule conjunct1, rule conjunct2)
    show ?thesis by (rule fan_command [OF c t])
  qed
  from 1 2 fanScale_values show ?thesis
    by (intro conjI impI) blast+
qed

lemma showInt_255: "showInt 255 = ''255''"
  by (simp add: showInt_def showNat.simps)

theorem fan_scaling_witness:
  "fanScale 90 = fanExact 90 - 1 \<and> fanExact 90 = 230 \<and> fanScale 100 = fanExact 100
   \<and> executeCommand bridgeS1 (JStr ''S1'') (JObj [(''type'', JStr ''auxFan''), (''speed'', JNum 100)])
     = Inr (bridgeS1, [Publish topicS1 (gcodeLine (''M106 P2 S255'' @ nl))])"
proof -
  note w = fan_scaling [of 100 bridgeS1 "JStr ''S1''" "\<lparr>debugAmsCmd = False\<rparr>" "''auxFan''"]
  note v = fan_scaling [of 90 bridgeS1 "JStr ''S1''" "\<lparr>debugAmsCmd = False\<rparr>" "''auxFan''"]
  from w have e: "executeCommand bridgeS1 (JStr ''S1'')
        (JObj [(''type'', JStr ''auxFan''), (''speed'', JNum 100)])
     = Inr (bridgeS1, [Publish topicS1 (gcodeLine (''M106 P2 S'' @ showInt 255 @ nl))])"
    by (simp add: bridgeS1_client topicS1_def fanExact_def)
  from w have w1: "fanScale 100 = fanExact 100"
    by simp
  from v have v1: "fanScale 90 = fanExact 90 - 1"
    by simp
  have "fanExact 90 = 230"
    by (simp add: fanExact_def)
  with e w1 v1 show ?thesis
    by (simp add: showInt_255)
qed

end
